theory Spec2Isabelle
  imports Main "HOL-Library.Word"
begin

section \<open>The kernel interface used by synch.c\<close>

text \<open>
  A thread is identified by the address of its \<^verbatim>\<open>struct thread\<close>; a pointer to a thread
  is a \<open>thread option\<close>, \<open>None\<close> being \<^verbatim>\<open>NULL\<close>.

  The macros \<^verbatim>\<open>CURCPU_EXISTS()\<close> and \<^verbatim>\<open>curthread\<close> are declared outside synch.c. Their
  values at the time of a call are parameters of every operation: \<open>curcpu_exists\<close> is the
  value of \<^verbatim>\<open>CURCPU_EXISTS()\<close>, \<open>curthread\<close> the value of the pointer \<^verbatim>\<open>curthread\<close>, and
  \<open>t_in_interrupt\<close> the value of \<^verbatim>\<open>curthread->t_in_interrupt\<close> when \<^verbatim>\<open>curthread\<close> is not
  \<^verbatim>\<open>NULL\<close>. Reading the field through a \<^verbatim>\<open>NULL\<close> \<^verbatim>\<open>curthread\<close> is a fault, which halts
  the kernel as a failed assertion does.
\<close>

type_synonym thread = nat

record cpu_ctx =
  curcpu_exists :: bool
  curthread :: "thread option"
  t_in_interrupt :: bool

text \<open>
  A failed \<^verbatim>\<open>KASSERT\<close> halts the kernel. The value says which assertion failed.
\<close>

datatype panic =
    InInterrupt        \<comment> \<open>\<^verbatim>\<open>KASSERT(curthread->t_in_interrupt == false)\<close>\<close>
  | AlreadyOwner       \<comment> \<open>\<^verbatim>\<open>KASSERT(lock->owner != curthread)\<close> in \<^verbatim>\<open>lock_acquire\<close>\<close>
  | FlagNotPositive    \<comment> \<open>\<^verbatim>\<open>KASSERT(lock->flagLocked > 0)\<close>\<close>
  | OwnerNull          \<comment> \<open>\<^verbatim>\<open>KASSERT(lock->owner = curthread)\<close> in \<^verbatim>\<open>lock_release\<close>\<close>
  | SpinlockHeld       \<comment> \<open>the assertion of \<^verbatim>\<open>spinlock_cleanup\<close>\<close>
  | WchanNotEmpty      \<comment> \<open>the assertion of \<^verbatim>\<open>wchan_destroy\<close>\<close>
  | NoCurthread        \<comment> \<open>going to sleep without a current thread\<close>
  | NullCurthread      \<comment> \<open>\<^verbatim>\<open>curthread->t_in_interrupt\<close> read with \<^verbatim>\<open>curthread == NULL\<close>\<close>
  | BadWchan           \<comment> \<open>a wait-channel pointer that does not point to a wait channel\<close>
  | CountNotPositive   \<comment> \<open>\<^verbatim>\<open>KASSERT(sem->sem_count > 0)\<close> in \<^verbatim>\<open>P\<close>\<close>
  | CountOverflow      \<comment> \<open>\<^verbatim>\<open>KASSERT(sem->sem_count > 0)\<close> in \<^verbatim>\<open>V\<close>\<close>

text \<open>
  What one call does, seen from the calling thread: it halts the kernel, it busy-waits on
  a spinlock that is held elsewhere, it is put to sleep on a wait channel (the state is
  the one it leaves behind when it is descheduled), or it returns.
\<close>

datatype 'a outcome = Panic panic | Spins | Sleeps 'a | Returns 'a

subsection \<open>Spinlock\<close>

text \<open>
  Modelled from the spec: the spinlock implementation is not part of synch.c. The spec
  gives \<open>init\<close>, \<open>acquire\<close> (busy-wait until available), \<open>release\<close> and \<open>cleanup\<close>
  (fails if still held). A spinlock is \<open>True\<close> while it is held.
\<close>

type_synonym spinlock = bool

definition spinlock_init :: spinlock where
  "spinlock_init = False"

definition spinlock_cleanup :: "spinlock \<Rightarrow> unit option" where
  "spinlock_cleanup lk = (if lk then None else Some ())"

subsection \<open>Wait channel\<close>

text \<open>
  Modelled from the spec: the wait-channel implementation is not part of synch.c. The
  spec gives a queue of blocked threads with \<open>create\<close>, \<open>destroy\<close> (fails if non-empty),
  \<open>sleep\<close> (enqueues the caller), \<open>wake_one\<close> and \<open>wake_all\<close>, and leaves the order in
  which waiters are woken unspecified. A wait channel is the list of the threads asleep
  on it. \<open>wchan_wakeone k\<close> wakes the waiter at position \<open>k mod length\<close>, so that \<open>k\<close>
  ranges over every choice the channel may make; on an empty channel it does nothing.
\<close>

type_synonym wchan = "thread list"

definition wchan_create :: wchan where
  "wchan_create = []"

definition wchan_destroy :: "wchan \<Rightarrow> unit option" where
  "wchan_destroy wc = (if wc = [] then Some () else None)"

definition wchan_sleep :: "cpu_ctx \<Rightarrow> wchan \<Rightarrow> wchan option" where
  "wchan_sleep ctx wc =
     (case curthread ctx of None \<Rightarrow> None | Some t \<Rightarrow> Some (wc @ [t]))"

definition wchan_wakeone :: "nat \<Rightarrow> wchan \<Rightarrow> thread option \<times> wchan" where
  "wchan_wakeone k wc =
     (if wc = [] then (None, [])
      else (Some (wc ! (k mod length wc)), remove1 (wc ! (k mod length wc)) wc))"

subsection \<open>Allocation\<close>

text \<open>
  \<^verbatim>\<open>kmalloc\<close>, \<^verbatim>\<open>kstrdup\<close> and \<^verbatim>\<open>wchan_create\<close> may each fail and return \<^verbatim>\<open>NULL\<close>.
  Whether they succeed is a parameter of the \<^verbatim>\<open>create\<close> functions.
\<close>

record alloc =
  kmalloc_ok :: bool
  kstrdup_ok :: bool
  wchan_create_ok :: bool

section \<open>Lock\<close>

text \<open>
  \<^verbatim>\<open>struct lock\<close> as synch.c uses it. The declaration of \<^verbatim>\<open>flagLocked\<close> is not in
  synch.c; the code compares it with 0, assigns 0 and 1 and increments it. It is taken to
  be a C \<^verbatim>\<open>int\<close>: a 32-bit word that is read as a signed number (\<open>sint\<close>) and whose
  increment wraps around, so that \<^verbatim>\<open>flagLocked++\<close> at 2147483647 gives a negative value
  and \<^verbatim>\<open>KASSERT(lock->flagLocked > 0)\<close> fails. A value of \<open>lock\<close> is the object a non-null
  \<^verbatim>\<open>struct lock *\<close> points to, so \<^verbatim>\<open>KASSERT(lock != NULL)\<close> holds of every argument.
\<close>

record lock =
  lk_name :: string
  lockWchan :: wchan
  lockProtect :: spinlock
  flagLocked :: "32 word"
  owner :: "thread option"

definition lock_create :: "alloc \<Rightarrow> string \<Rightarrow> lock option" where
  "lock_create a name =
     (if \<not> kmalloc_ok a then None
      else if \<not> kstrdup_ok a then None
      else if \<not> wchan_create_ok a then None
      else Some \<lparr>lk_name = name, lockWchan = wchan_create, lockProtect = spinlock_init,
                 flagLocked = 1, owner = None\<rparr>)"

definition lock_destroy :: "lock \<Rightarrow> unit outcome" where
  "lock_destroy lock =
     (case spinlock_cleanup (lockProtect lock) of
        None \<Rightarrow> Panic SpinlockHeld
      | Some _ \<Rightarrow>
         (case wchan_destroy (lockWchan lock) of
            None \<Rightarrow> Panic WchanNotEmpty
          | Some _ \<Rightarrow> Returns ()))"

text \<open>
  The part of \<^verbatim>\<open>lock_acquire\<close> from \<^verbatim>\<open>spinlock_acquire\<close> on. A thread that finds
  \<^verbatim>\<open>flagLocked == 0\<close> releases the spinlock and sleeps on the wait channel; when it is
  woken it takes the spinlock and tests the flag again, which is this function again.
  \<^verbatim>\<open>wchan_lock\<close> takes the wait channel's own lock, which \<^verbatim>\<open>wchan_sleep\<close> drops; it
  does not change the queue and has no counterpart here.
\<close>

definition lock_acquire_loop :: "cpu_ctx \<Rightarrow> lock \<Rightarrow> lock outcome" where
  "lock_acquire_loop ctx lock =
     (if lockProtect lock then Spins
      else if flagLocked lock = 0 then
        (case wchan_sleep ctx (lockWchan lock) of
           None \<Rightarrow> Panic NoCurthread
         | Some q \<Rightarrow> Sleeps (lock\<lparr>lockWchan := q\<rparr>))
      else if \<not> 0 < sint (flagLocked lock) then Panic FlagNotPositive
      else Returns (lock\<lparr>flagLocked := 0,
                         owner := (if curcpu_exists ctx then curthread ctx else None)\<rparr>))"

definition lock_acquire :: "cpu_ctx \<Rightarrow> lock \<Rightarrow> lock outcome" where
  "lock_acquire ctx lock =
     (case curthread ctx of
        None \<Rightarrow> Panic NullCurthread
      | Some _ \<Rightarrow>
         (if t_in_interrupt ctx then Panic InInterrupt
          else if curcpu_exists ctx \<and> owner lock = curthread ctx then Panic AlreadyOwner
          else lock_acquire_loop ctx lock))"

text \<open>
  \<^verbatim>\<open>KASSERT(lock->owner = curthread)\<close> is an assignment: it stores \<^verbatim>\<open>curthread\<close> in
  \<^verbatim>\<open>lock->owner\<close> and fails when the stored pointer is \<^verbatim>\<open>NULL\<close>. The argument \<open>k\<close> is
  the choice of \<open>wchan_wakeone\<close>.
\<close>

definition lock_release :: "cpu_ctx \<Rightarrow> nat \<Rightarrow> lock \<Rightarrow> lock outcome" where
  "lock_release ctx k lock =
     (if lockProtect lock then Spins
      else
        let lock1 = (if curcpu_exists ctx then lock\<lparr>owner := curthread ctx\<rparr> else lock)
        in if curcpu_exists ctx \<and> owner lock1 = None then Panic OwnerNull
           else
             let lock2 = lock1\<lparr>flagLocked := flagLocked lock1 + 1\<rparr>
             in if \<not> 0 < sint (flagLocked lock2) then Panic FlagNotPositive
                else Returns (lock2\<lparr>lockWchan := snd (wchan_wakeone k (lockWchan lock2))\<rparr>))"

definition lock_do_i_hold :: "cpu_ctx \<Rightarrow> lock \<Rightarrow> bool" where
  "lock_do_i_hold ctx lock =
     (if curcpu_exists ctx then True else owner lock = curthread ctx)"

text \<open>The context of a thread \<open>t\<close> running outside interrupt handlers, after bootstrap.\<close>

definition thread_ctx :: "thread \<Rightarrow> cpu_ctx" where
  "thread_ctx t = \<lparr>curcpu_exists = True, curthread = Some t, t_in_interrupt = False\<rparr>"

definition all_ok :: alloc where
  "all_ok = \<lparr>kmalloc_ok = True, kstrdup_ok = True, wchan_create_ok = True\<rparr>"

section \<open>Condition variable\<close>

text \<open>
  \<^verbatim>\<open>cv_create\<close> stores the result of \<^verbatim>\<open>wchan_create\<close> in the field \<^verbatim>\<open>cv_name\<close> and then
  reads the field \<^verbatim>\<open>cvWchan\<close>, which nothing has written since \<^verbatim>\<open>kmalloc\<close>. The two
  pointer fields are therefore untyped here: a pointer is \<open>None\<close> (\<^verbatim>\<open>NULL\<close>) or refers to
  a name buffer, to a wait channel, or, in memory that was never written, to garbage.
\<close>

datatype kobj = NameBuf string | WaitChan wchan | Garbage

record cv =
  cv_name :: "kobj option"
  cvWchan :: "kobj option"
  cvLock :: spinlock

text \<open>
  \<open>kfree p live\<close> removes the block \<open>p\<close> points to from the blocks that are allocated;
  freeing \<^verbatim>\<open>NULL\<close> does nothing.
\<close>

definition kfree :: "kobj option \<Rightarrow> kobj list \<Rightarrow> kobj list" where
  "kfree p live = (case p of None \<Rightarrow> live | Some b \<Rightarrow> remove1 b live)"

text \<open>
  \<open>cv_create a junk name\<close>: \<open>junk\<close> is what the field \<^verbatim>\<open>cvWchan\<close> of the fresh struct holds
  (the fields \<^verbatim>\<open>cv_name\<close> and \<^verbatim>\<open>cvLock\<close> are written before they are read). The result is
  the returned pointer and the blocks obtained from \<^verbatim>\<open>kstrdup\<close> and \<^verbatim>\<open>wchan_create\<close> that
  are still allocated at the return. The struct itself is freed on every path that
  returns \<^verbatim>\<open>NULL\<close> after \<^verbatim>\<open>kmalloc\<close> succeeded.
\<close>

definition cv_create :: "alloc \<Rightarrow> kobj option \<Rightarrow> string \<Rightarrow> cv option \<times> kobj list" where
  "cv_create a junk name =
     (if \<not> kmalloc_ok a then (None, [])
      else
        let cv0 = \<lparr>cv_name = (if kstrdup_ok a then Some (NameBuf name) else None),
                   cvWchan = junk, cvLock = False\<rparr>;
            live0 = (case cv_name cv0 of None \<Rightarrow> [] | Some b \<Rightarrow> [b])
        in if cv_name cv0 = None then (None, live0)
           else
             let w = (if wchan_create_ok a then Some (WaitChan wchan_create) else None);
                 cv1 = cv0\<lparr>cv_name := w\<rparr>;
                 live1 = live0 @ (case w of None \<Rightarrow> [] | Some b \<Rightarrow> [b])
             in if cvWchan cv1 = None then (None, kfree (cv_name cv1) live1)
                else (Some (cv1\<lparr>cvLock := spinlock_init\<rparr>), live1))"

text \<open>
  \<^verbatim>\<open>cv_wait\<close> up to the point where the caller is asleep. It takes the spinlock of the
  condition variable, releases the lock and calls \<^verbatim>\<open>wchan_sleep(cv->cvWchan)\<close>, to which
  it does not pass the spinlock: the caller sleeps with \<^verbatim>\<open>cvLock\<close> held.
\<close>

definition cv_wait_sleep :: "cpu_ctx \<Rightarrow> nat \<Rightarrow> cv \<Rightarrow> lock \<Rightarrow> (cv \<times> lock) outcome" where
  "cv_wait_sleep ctx k cv lock =
     (if cvLock cv then Spins
      else
        (case lock_release ctx k lock of
           Panic p \<Rightarrow> Panic p
         | Spins \<Rightarrow> Spins
         | Sleeps l \<Rightarrow> Sleeps (cv\<lparr>cvLock := True\<rparr>, l)
         | Returns l \<Rightarrow>
            (case cvWchan cv of
               Some (WaitChan q) \<Rightarrow>
                 (case wchan_sleep ctx q of
                    None \<Rightarrow> Panic NoCurthread
                  | Some q' \<Rightarrow> Sleeps (cv\<lparr>cvLock := True, cvWchan := Some (WaitChan q')\<rparr>, l))
             | _ \<Rightarrow> Panic BadWchan)))"

text \<open>
  \<^verbatim>\<open>cv_wait\<close> from the return of \<^verbatim>\<open>wchan_sleep\<close> on: \<^verbatim>\<open>spinlock_release(&cv->cvLock)\<close>,
  then \<^verbatim>\<open>lock_acquire(lock)\<close>.
\<close>

definition cv_wait_wake :: "cpu_ctx \<Rightarrow> cv \<Rightarrow> lock \<Rightarrow> (cv \<times> lock) outcome" where
  "cv_wait_wake ctx cv lock =
     map_outcome (Pair (cv\<lparr>cvLock := False\<rparr>)) (lock_acquire ctx lock)"

definition cv_signal :: "cpu_ctx \<Rightarrow> nat \<Rightarrow> cv \<Rightarrow> lock \<Rightarrow> cv outcome" where
  "cv_signal ctx k cv lock =
     (if cvLock cv then Spins
      else
        (case cvWchan cv of
           Some (WaitChan q) \<Rightarrow> Returns (cv\<lparr>cvWchan := Some (WaitChan (snd (wchan_wakeone k q)))\<rparr>)
         | _ \<Rightarrow> Panic BadWchan))"

section \<open>Semaphore\<close>

record semaphore =
  sem_name :: string
  sem_wchan :: wchan
  sem_lock :: spinlock
  sem_count :: "32 word"

definition sem_create :: "alloc \<Rightarrow> string \<Rightarrow> 32 word \<Rightarrow> semaphore option" where
  "sem_create a name initial_count =
     (if \<not> kmalloc_ok a then None
      else if \<not> kstrdup_ok a then None
      else if \<not> wchan_create_ok a then None
      else Some \<lparr>sem_name = name, sem_wchan = wchan_create, sem_lock = spinlock_init,
                 sem_count = initial_count\<rparr>)"

definition sem_destroy :: "semaphore \<Rightarrow> unit outcome" where
  "sem_destroy sm =
     (case spinlock_cleanup (sem_lock sm) of
        None \<Rightarrow> Panic SpinlockHeld
      | Some _ \<Rightarrow>
         (case wchan_destroy (sem_wchan sm) of
            None \<Rightarrow> Panic WchanNotEmpty
          | Some _ \<Rightarrow> Returns ()))"

subsection \<open>Threads running \<^verbatim>\<open>P\<close> and \<^verbatim>\<open>V\<close> on one semaphore\<close>

text \<open>
  \<^verbatim>\<open>P\<close> and \<^verbatim>\<open>V\<close> are run by several threads at once, so they are modelled statement by
  statement. The program counter of a thread names the statement it executes next:

  \<^item> \<open>P_entry\<close>: \<^verbatim>\<open>KASSERT(curthread->t_in_interrupt == false)\<close>;
  \<^item> \<open>P_spin\<close>: \<^verbatim>\<open>spinlock_acquire(&sem->sem_lock)\<close>, possible only while the spinlock is free;
  \<^item> \<open>P_test\<close>: the test \<^verbatim>\<open>sem->sem_count == 0\<close> of the loop;
  \<^item> \<open>P_sleep\<close>: \<^verbatim>\<open>wchan_sleep(sem->sem_wchan, &sem->sem_lock)\<close>, which enqueues the thread
    and releases the spinlock in one step;
  \<^item> \<open>P_asleep\<close>: asleep inside \<^verbatim>\<open>wchan_sleep\<close>; the thread has no step until it is woken;
  \<^item> \<open>P_woken\<close>: woken inside \<^verbatim>\<open>wchan_sleep\<close>, which takes the spinlock again before it
    returns to the loop test;
  \<^item> \<open>P_assert\<close>: \<^verbatim>\<open>KASSERT(sem->sem_count > 0)\<close>;
  \<^item> \<open>P_dec\<close>: \<^verbatim>\<open>sem->sem_count--\<close>;
  \<^item> \<open>P_unlock\<close>: \<^verbatim>\<open>spinlock_release(&sem->sem_lock)\<close> and return;
  \<^item> \<open>V_spin\<close>, \<open>V_inc\<close>, \<open>V_assert\<close>, \<open>V_wake\<close>, \<open>V_unlock\<close>: the five statements of \<^verbatim>\<open>V\<close>.

  Modelled from the spec: the two-argument \<^verbatim>\<open>wchan_sleep\<close> is not part of synch.c; the spec
  says that it atomically enqueues the caller and releases the spinlock, and that the
  spinlock is re-acquired on wake.
\<close>

datatype semop = OpP | OpV

datatype pc =
    Idle
  | P_entry | P_spin | P_test | P_sleep | P_asleep | P_woken | P_assert | P_dec | P_unlock
  | V_spin | V_inc | V_assert | V_wake | V_unlock

text \<open>
  The state of the system: the semaphore, the program counter of every thread, the calls
  every thread has still to make, whether a thread runs in an interrupt handler, the
  number of calls of \<^verbatim>\<open>P\<close> and of \<^verbatim>\<open>V\<close> that have returned, and the failed assertion once
  the kernel has halted.
\<close>

record system =
  sem :: semaphore
  pcs :: "thread \<Rightarrow> pc"
  todo :: "thread \<Rightarrow> semop list"
  in_intr :: "thread \<Rightarrow> bool"
  p_done :: nat
  v_done :: nat
  halted :: "panic option"

definition ctx_of :: "system \<Rightarrow> thread \<Rightarrow> cpu_ctx" where
  "ctx_of s t = \<lparr>curcpu_exists = True, curthread = Some t, t_in_interrupt = in_intr s t\<rparr>"

definition goto :: "thread \<Rightarrow> pc \<Rightarrow> system \<Rightarrow> system" where
  "goto t l s = s\<lparr>pcs := (pcs s)(t := l)\<rparr>"

definition halt :: "panic \<Rightarrow> system \<Rightarrow> system" where
  "halt p s = s\<lparr>halted := Some p\<rparr>"

text \<open>
  The next step of thread \<open>t\<close>, or \<open>None\<close> when \<open>t\<close> has none: the kernel has halted, the
  thread has nothing left to call, it waits for the spinlock, or it is asleep. \<open>k\<close> is the
  choice of \<open>wchan_wakeone\<close>.
\<close>

definition thread_step :: "nat \<Rightarrow> thread \<Rightarrow> system \<Rightarrow> system option" where
  "thread_step k t s =
     (if halted s \<noteq> None then None
      else
        (case pcs s t of
           Idle \<Rightarrow>
             (case todo s t of
                [] \<Rightarrow> None
              | OpP # r \<Rightarrow> Some (goto t P_entry (s\<lparr>todo := (todo s)(t := r)\<rparr>))
              | OpV # r \<Rightarrow> Some (goto t V_spin (s\<lparr>todo := (todo s)(t := r)\<rparr>)))
         | P_entry \<Rightarrow>
             (if t_in_interrupt (ctx_of s t) then Some (halt InInterrupt s)
              else Some (goto t P_spin s))
         | P_spin \<Rightarrow>
             (if sem_lock (sem s) then None
              else Some (goto t P_test (s\<lparr>sem := (sem s)\<lparr>sem_lock := True\<rparr>\<rparr>)))
         | P_test \<Rightarrow>
             (if sem_count (sem s) = 0 then Some (goto t P_sleep s)
              else Some (goto t P_assert s))
         | P_sleep \<Rightarrow>
             (case wchan_sleep (ctx_of s t) (sem_wchan (sem s)) of
                None \<Rightarrow> Some (halt NoCurthread s)
              | Some q \<Rightarrow>
                  Some (goto t P_asleep (s\<lparr>sem := (sem s)\<lparr>sem_wchan := q, sem_lock := False\<rparr>\<rparr>)))
         | P_asleep \<Rightarrow> None
         | P_woken \<Rightarrow>
             (if sem_lock (sem s) then None
              else Some (goto t P_test (s\<lparr>sem := (sem s)\<lparr>sem_lock := True\<rparr>\<rparr>)))
         | P_assert \<Rightarrow>
             (if \<not> 0 < sem_count (sem s) then Some (halt CountNotPositive s)
              else Some (goto t P_dec s))
         | P_dec \<Rightarrow>
             Some (goto t P_unlock (s\<lparr>sem := (sem s)\<lparr>sem_count := sem_count (sem s) - 1\<rparr>\<rparr>))
         | P_unlock \<Rightarrow>
             Some (goto t Idle (s\<lparr>sem := (sem s)\<lparr>sem_lock := False\<rparr>, p_done := p_done s + 1\<rparr>))
         | V_spin \<Rightarrow>
             (if sem_lock (sem s) then None
              else Some (goto t V_inc (s\<lparr>sem := (sem s)\<lparr>sem_lock := True\<rparr>\<rparr>)))
         | V_inc \<Rightarrow>
             Some (goto t V_assert (s\<lparr>sem := (sem s)\<lparr>sem_count := sem_count (sem s) + 1\<rparr>\<rparr>))
         | V_assert \<Rightarrow>
             (if \<not> 0 < sem_count (sem s) then Some (halt CountOverflow s)
              else Some (goto t V_wake s))
         | V_wake \<Rightarrow>
             (case wchan_wakeone k (sem_wchan (sem s)) of
                (None, q) \<Rightarrow> Some (goto t V_unlock (s\<lparr>sem := (sem s)\<lparr>sem_wchan := q\<rparr>\<rparr>))
              | (Some w, q) \<Rightarrow>
                  Some (goto t V_unlock (goto w P_woken (s\<lparr>sem := (sem s)\<lparr>sem_wchan := q\<rparr>\<rparr>))))
         | V_unlock \<Rightarrow>
             Some (goto t Idle (s\<lparr>sem := (sem s)\<lparr>sem_lock := False\<rparr>, v_done := v_done s + 1\<rparr>))))"

text \<open>
  A schedule is the list of the threads that step, in order, each with the choice its
  step leaves to the wait channel. \<open>run\<close> is \<open>None\<close> when the schedule names a thread that
  has no step.
\<close>

fun run :: "(nat \<times> thread) list \<Rightarrow> system \<Rightarrow> system option" where
  "run [] s = Some s"
| "run ((k, t) # sch) s =
     (case thread_step k t s of None \<Rightarrow> None | Some s' \<Rightarrow> run sch s')"

text \<open>The system right after \<^verbatim>\<open>sem_create\<close>: no thread has called anything yet.\<close>

definition boot :: "semaphore \<Rightarrow> (thread \<Rightarrow> semop list) \<Rightarrow> (thread \<Rightarrow> bool) \<Rightarrow> system" where
  "boot sm td ii =
     \<lparr>sem = sm, pcs = (\<lambda>_. Idle), todo = td, in_intr = ii, p_done = 0, v_done = 0,
      halted = None\<rparr>"

subsection \<open>Invariants of the semaphore\<close>

text \<open>
  The statements at which a thread holds the spinlock of the semaphore: from the return
  of \<^verbatim>\<open>spinlock_acquire\<close> (or of \<^verbatim>\<open>wchan_sleep\<close>) to the call of \<^verbatim>\<open>spinlock_release\<close>
  (or of \<^verbatim>\<open>wchan_sleep\<close>).
\<close>

fun holds_guard :: "pc \<Rightarrow> bool" where
  "holds_guard P_test = True"
| "holds_guard P_sleep = True"
| "holds_guard P_assert = True"
| "holds_guard P_dec = True"
| "holds_guard P_unlock = True"
| "holds_guard V_inc = True"
| "holds_guard V_assert = True"
| "holds_guard V_wake = True"
| "holds_guard V_unlock = True"
| "holds_guard _ = False"

text \<open>
  \<open>balance n c p v l\<close>: how the count \<open>c\<close>, the number \<open>p\<close> of returned calls of \<^verbatim>\<open>P\<close> and
  the number \<open>v\<close> of returned calls of \<^verbatim>\<open>V\<close> are related, for initial count \<open>n\<close>, while
  the thread that holds the spinlock is at statement \<open>l\<close>.
\<close>

fun balance :: "nat \<Rightarrow> 32 word \<Rightarrow> nat \<Rightarrow> nat \<Rightarrow> pc \<Rightarrow> bool" where
  "balance n c p v P_unlock = (unat c + p + 1 = n + v)"
| "balance n c p v V_assert = (unat (c - 1) + p = n + v)"
| "balance n c p v V_wake = (unat c + p = n + v + 1 \<and> c \<noteq> 0)"
| "balance n c p v V_unlock = (unat c + p = n + v + 1 \<and> c \<noteq> 0)"
| "balance n c p v P_assert = (unat c + p = n + v \<and> c \<noteq> 0)"
| "balance n c p v P_dec = (unat c + p = n + v \<and> c \<noteq> 0)"
| "balance n c p v _ = (unat c + p = n + v)"

definition sem_inv :: "nat \<Rightarrow> system \<Rightarrow> bool" where
  "sem_inv n s =
     ((\<forall>t u. holds_guard (pcs s t) \<and> holds_guard (pcs s u) \<longrightarrow> t = u)
      \<and> (\<forall>t. holds_guard (pcs s t) \<longrightarrow>
            sem_lock (sem s) \<and> balance n (sem_count (sem s)) (p_done s) (v_done s) (pcs s t))
      \<and> (\<not> sem_lock (sem s) \<longrightarrow> unat (sem_count (sem s)) + p_done s = n + v_done s)
      \<and> p_done s \<le> n + v_done s
      \<and> halted s \<noteq> Some CountNotPositive)"

subsection \<open>One \<^verbatim>\<open>P\<close> against one \<^verbatim>\<open>V\<close>\<close>

text \<open>
  A semaphore created with count 0; thread 0 calls \<^verbatim>\<open>P\<close> once, thread 1 calls \<^verbatim>\<open>V\<close> once,
  no thread runs in an interrupt handler.
\<close>

definition scenario :: system where
  "scenario =
     boot \<lparr>sem_name = ''s'', sem_wchan = [], sem_lock = False, sem_count = 0\<rparr>
       ((\<lambda>_. [])(0 := [OpP], 1 := [OpV])) (\<lambda>_. False)"

text \<open>
  Where thread 0 and thread 1 can be, with what they have left to call and with the number
  of returned calls.
\<close>

fun a_ok :: "pc \<Rightarrow> semop list \<Rightarrow> nat \<Rightarrow> bool" where
  "a_ok Idle td p = (td = [OpP] \<and> p = 0 \<or> td = [] \<and> p = 1)"
| "a_ok P_entry td p = (td = [] \<and> p = 0)"
| "a_ok P_spin td p = (td = [] \<and> p = 0)"
| "a_ok P_test td p = (td = [] \<and> p = 0)"
| "a_ok P_sleep td p = (td = [] \<and> p = 0)"
| "a_ok P_asleep td p = (td = [] \<and> p = 0)"
| "a_ok P_woken td p = (td = [] \<and> p = 0)"
| "a_ok P_assert td p = (td = [] \<and> p = 0)"
| "a_ok P_dec td p = (td = [] \<and> p = 0)"
| "a_ok P_unlock td p = (td = [] \<and> p = 0)"
| "a_ok _ td p = False"

fun b_ok :: "pc \<Rightarrow> semop list \<Rightarrow> nat \<Rightarrow> bool" where
  "b_ok Idle td v = (td = [OpV] \<and> v = 0 \<or> td = [] \<and> v = 1)"
| "b_ok V_spin td v = (td = [] \<and> v = 0)"
| "b_ok V_inc td v = (td = [] \<and> v = 0)"
| "b_ok V_assert td v = (td = [] \<and> v = 0)"
| "b_ok V_wake td v = (td = [] \<and> v = 0)"
| "b_ok V_unlock td v = (td = [] \<and> v = 0)"
| "b_ok _ td v = False"

text \<open>
  Thread 0 has decremented the count; thread 1 has incremented it; thread 1 has made its
  call of \<^verbatim>\<open>wchan_wakeone\<close>.
\<close>

definition a_dec :: "pc \<Rightarrow> nat \<Rightarrow> bool" where
  "a_dec l p = (l = P_unlock \<or> p = 1)"

definition b_inc :: "pc \<Rightarrow> nat \<Rightarrow> bool" where
  "b_inc l v = (l = V_assert \<or> l = V_wake \<or> l = V_unlock \<or> v = 1)"

definition b_woke :: "pc \<Rightarrow> nat \<Rightarrow> bool" where
  "b_woke l v = (l = V_unlock \<or> v = 1)"

definition scn_inv :: "system \<Rightarrow> bool" where
  "scn_inv s =
     (halted s = None \<and> \<not> in_intr s 0
      \<and> (\<forall>t. 1 < t \<longrightarrow> pcs s t = Idle \<and> todo s t = [])
      \<and> a_ok (pcs s 0) (todo s 0) (p_done s)
      \<and> b_ok (pcs s 1) (todo s 1) (v_done s)
      \<and> sem_lock (sem s) = (holds_guard (pcs s 0) \<or> holds_guard (pcs s 1))
      \<and> \<not> (holds_guard (pcs s 0) \<and> holds_guard (pcs s 1))
      \<and> sem_wchan (sem s) = (if pcs s 0 = P_asleep then [0] else [])
      \<and> sem_count (sem s) =
          (if b_inc (pcs s 1) (v_done s) \<and> \<not> a_dec (pcs s 0) (p_done s) then 1 else 0)
      \<and> (a_dec (pcs s 0) (p_done s) \<longrightarrow> v_done s = 1)
      \<and> (pcs s 0 = P_sleep \<longrightarrow> \<not> b_inc (pcs s 1) (v_done s))
      \<and> (pcs s 0 = P_assert \<or> pcs s 0 = P_dec \<longrightarrow> v_done s = 1)
      \<and> (pcs s 0 = P_asleep \<longrightarrow> \<not> b_woke (pcs s 1) (v_done s))
      \<and> (pcs s 0 = P_woken \<longrightarrow> b_woke (pcs s 1) (v_done s)))"

text \<open>
  The number of steps a thread has still to take, at most: thread 0 tests the count once
  if it finds it positive, and twice, with a sleep in between, if it finds it zero.
\<close>

fun rank_a :: "pc \<Rightarrow> 32 word \<Rightarrow> nat \<Rightarrow> nat" where
  "rank_a Idle c p = (if p = 1 then 0 else 10)"
| "rank_a P_entry c p = 9"
| "rank_a P_spin c p = 8"
| "rank_a P_test c p = (if c = 0 then 7 else 4)"
| "rank_a P_sleep c p = 6"
| "rank_a P_asleep c p = 5"
| "rank_a P_woken c p = 5"
| "rank_a P_assert c p = 3"
| "rank_a P_dec c p = 2"
| "rank_a P_unlock c p = 1"
| "rank_a _ c p = 0"

fun rank_b :: "pc \<Rightarrow> nat \<Rightarrow> nat" where
  "rank_b Idle v = (if v = 1 then 0 else 6)"
| "rank_b V_spin v = 5"
| "rank_b V_inc v = 4"
| "rank_b V_assert v = 3"
| "rank_b V_wake v = 2"
| "rank_b V_unlock v = 1"
| "rank_b _ v = 0"

definition steps_left :: "system \<Rightarrow> nat" where
  "steps_left s =
     rank_a (pcs s 0) (sem_count (sem s)) (p_done s) + rank_b (pcs s 1) (v_done s)"

section \<open>Properties of the lock\<close>

lemma sint_flag_succ:
  fixes f :: "32 word"
  assumes "0 \<le> sint f" and "sint f < 2147483647"
  shows "sint (f + 1) = sint f + 1"
proof -
  have "sint (f + 1) = signed_take_bit 31 (sint f + 1)"
    by (simp add: sint_word_ariths)
  also have "\<dots> = sint f + 1"
    using assms by (intro signed_take_bit_int_eq_self) simp_all
  finally show ?thesis .
qed

text \<open>
  At the largest value of the flag the increment wraps around and the assertion after it
  fails: \<open>lock_release\<close> does not return.
\<close>

lemma lock_release_overflow:
  "lock_release (thread_ctx t) k
      \<lparr>lk_name = n, lockWchan = q, lockProtect = False, flagLocked = 2147483647,
       owner = w\<rparr> = Panic FlagNotPositive"
  by (simp add: lock_release_def thread_ctx_def Let_def)

text \<open>With \<^verbatim>\<open>curthread == NULL\<close> the first assertion of \<open>lock_acquire\<close> is a fault.\<close>

lemma lock_acquire_null_curthread:
  "curthread ctx = None \<Longrightarrow> lock_acquire ctx L = Panic NullCurthread"
  by (simp add: lock_acquire_def)

text \<open>
  C10. With thread identity available, a call of \<open>lock_release\<close> by thread \<open>t\<close> on a lock
  whose guard is free and whose flag is below the largest value of its type returns and
  leaves \<open>t\<close> in the owner field, with the lock free; a following \<open>lock_acquire\<close> by \<open>t\<close>
  fails the assertion \<^verbatim>\<open>lock->owner != curthread\<close>.
\<close>

theorem lock_release_then_acquire_panics:
  assumes "curcpu_exists ctx" and "curthread ctx = Some t" and "\<not> t_in_interrupt ctx"
    and "\<not> lockProtect L" and "0 \<le> sint (flagLocked L)"
    and "sint (flagLocked L) < 2147483647"
  shows "\<exists>L'. lock_release ctx k L = Returns L' \<and> owner L' = Some t
           \<and> 0 < sint (flagLocked L') \<and> lock_acquire ctx L' = Panic AlreadyOwner"
  using assms sint_flag_succ [of "flagLocked L"]
  by (simp add: lock_release_def lock_acquire_def Let_def)

theorem lock_release_then_acquire_panics_witness:
  "\<exists>L'. lock_release (thread_ctx 1) 0
          \<lparr>lk_name = ''l'', lockWchan = [], lockProtect = False, flagLocked = 0,
           owner = Some 1\<rparr> = Returns L'
        \<and> owner L' = Some 1 \<and> 0 < sint (flagLocked L')
        \<and> lock_acquire (thread_ctx 1) L' = Panic AlreadyOwner"
  using lock_release_then_acquire_panics [of "thread_ctx 1" 1
      "\<lparr>lk_name = ''l'', lockWchan = [], lockProtect = False, flagLocked = 0,
        owner = Some 1\<rparr>" 0]
  by (simp add: thread_ctx_def)

text \<open>
  C1. Thread 1 acquires a fresh lock; thread 2, which is not the owner, then calls
  \<open>lock_release\<close> with thread identity available. The call returns: the lock is free and
  thread 2 is recorded as its owner. No assertion fails.
\<close>

theorem lock_release_by_other_thread_returns:
  "lock_acquire (thread_ctx 1)
      \<lparr>lk_name = ''l'', lockWchan = [], lockProtect = False, flagLocked = 1, owner = None\<rparr>
     = Returns \<lparr>lk_name = ''l'', lockWchan = [], lockProtect = False, flagLocked = 0,
                owner = Some 1\<rparr>
   \<and> lock_release (thread_ctx 2) 0
      \<lparr>lk_name = ''l'', lockWchan = [], lockProtect = False, flagLocked = 0, owner = Some 1\<rparr>
     = Returns \<lparr>lk_name = ''l'', lockWchan = [], lockProtect = False, flagLocked = 1,
                owner = Some 2\<rparr>"
  by (simp add: lock_acquire_def lock_acquire_loop_def lock_release_def thread_ctx_def
      wchan_wakeone_def Let_def)

text \<open>
  C2. With thread identity available \<open>lock_do_i_hold\<close> is true of every lock and every
  calling thread, whatever the owner field holds: also when no owner is recorded and when
  another thread is.
\<close>

theorem lock_do_i_hold_ignores_owner:
  "lock_do_i_hold (thread_ctx t)
     \<lparr>lk_name = n, lockWchan = q, lockProtect = g, flagLocked = f, owner = w\<rparr>"
  by (simp add: lock_do_i_hold_def thread_ctx_def)

text \<open>
  C4. Thread \<open>t\<close> releases a lock it holds. The lock becomes free and one waiter, if there
  is one, leaves the wait channel, but the owner field still names \<open>t\<close>: it is not
  cleared.
\<close>

theorem lock_release_keeps_owner:
  "lock_release (thread_ctx t) k
      \<lparr>lk_name = n, lockWchan = q, lockProtect = False, flagLocked = 0, owner = Some t\<rparr>
     = Returns \<lparr>lk_name = n, lockWchan = snd (wchan_wakeone k q), lockProtect = False,
                flagLocked = 1, owner = Some t\<rparr>"
  by (simp add: lock_release_def thread_ctx_def Let_def)

text \<open>
  C5. \<open>lock_create\<close> gives the free state (flag 1, no owner) and \<open>lock_acquire\<close> by thread 1
  the held state (flag 0, owner 1). \<open>lock_release\<close> by thread 1 then gives a state with
  flag 1 and owner 1, which is neither, and a second \<open>lock_release\<close> gives flag 2.
\<close>

theorem lock_leaves_free_and_held:
  "lock_create all_ok ''l''
     = Some \<lparr>lk_name = ''l'', lockWchan = [], lockProtect = False, flagLocked = 1, owner = None\<rparr>
   \<and> lock_acquire (thread_ctx 1)
      \<lparr>lk_name = ''l'', lockWchan = [], lockProtect = False, flagLocked = 1, owner = None\<rparr>
     = Returns \<lparr>lk_name = ''l'', lockWchan = [], lockProtect = False, flagLocked = 0,
                owner = Some 1\<rparr>
   \<and> lock_release (thread_ctx 1) 0
      \<lparr>lk_name = ''l'', lockWchan = [], lockProtect = False, flagLocked = 0, owner = Some 1\<rparr>
     = Returns \<lparr>lk_name = ''l'', lockWchan = [], lockProtect = False, flagLocked = 1,
                owner = Some 1\<rparr>
   \<and> lock_release (thread_ctx 1) 0
      \<lparr>lk_name = ''l'', lockWchan = [], lockProtect = False, flagLocked = 1, owner = Some 1\<rparr>
     = Returns \<lparr>lk_name = ''l'', lockWchan = [], lockProtect = False, flagLocked = 2,
                owner = Some 1\<rparr>"
  by (simp add: lock_create_def all_ok_def wchan_create_def spinlock_init_def
      lock_acquire_def lock_acquire_loop_def lock_release_def thread_ctx_def
      wchan_wakeone_def Let_def)

text \<open>
  C6, as stated, fails: thread 1 acquires a fresh lock, and \<open>lock_destroy\<close> of the held
  lock returns.
\<close>

theorem lock_destroy_held_counterexample:
  "lock_acquire (thread_ctx 1)
      \<lparr>lk_name = ''l'', lockWchan = [], lockProtect = False, flagLocked = 1, owner = None\<rparr>
     = Returns \<lparr>lk_name = ''l'', lockWchan = [], lockProtect = False, flagLocked = 0,
                owner = Some 1\<rparr>
   \<and> lock_destroy
      \<lparr>lk_name = ''l'', lockWchan = [], lockProtect = False, flagLocked = 0, owner = Some 1\<rparr>
     = Returns ()"
  by (simp add: lock_acquire_def lock_acquire_loop_def thread_ctx_def lock_destroy_def
      spinlock_cleanup_def wchan_destroy_def)

text \<open>
  C6, amended. \<open>lock_destroy\<close> returns exactly when the guard spinlock is free and no thread
  is queued on the wait channel, and fails an assertion otherwise. Whether the lock is
  held plays no part: the result does not depend on the flag or on the owner.
\<close>

theorem lock_destroy_checks_queue_only:
  "(lock_destroy L = Returns ()) = (\<not> lockProtect L \<and> lockWchan L = [])
   \<and> (\<exists>p. lock_destroy L = Panic p) = (lockProtect L \<or> lockWchan L \<noteq> [])
   \<and> lock_destroy (L\<lparr>flagLocked := f, owner := w\<rparr>) = lock_destroy L"
  by (simp add: lock_destroy_def spinlock_cleanup_def wchan_destroy_def)

theorem lock_destroy_checks_queue_only_witness:
  "(\<exists>p. lock_destroy
       \<lparr>lk_name = ''l'', lockWchan = [3], lockProtect = False, flagLocked = 0,
        owner = Some 1\<rparr> = Panic p)
   \<and> lock_destroy
       \<lparr>lk_name = ''l'', lockWchan = [], lockProtect = False, flagLocked = 0,
        owner = Some 1\<rparr> = Returns ()"
  using lock_destroy_checks_queue_only [of
      "\<lparr>lk_name = ''l'', lockWchan = [3], lockProtect = False, flagLocked = 0,
        owner = Some 1\<rparr>"]
    lock_destroy_checks_queue_only [of
      "\<lparr>lk_name = ''l'', lockWchan = [], lockProtect = False, flagLocked = 0,
        owner = Some 1\<rparr>"]
  by simp

section \<open>Properties of the condition variable\<close>

text \<open>
  C3. When all three allocations succeed and the fresh struct holds garbage, \<open>cv_create\<close>
  returns a condition variable whose \<^verbatim>\<open>cvWchan\<close> is that garbage: the wait channel it
  created is in \<^verbatim>\<open>cv_name\<close>, and the name buffer is still allocated with no pointer to it.
  When \<^verbatim>\<open>wchan_create\<close> fails, \<open>cv_create\<close> still returns a condition variable. When the
  fresh struct holds \<^verbatim>\<open>NULL\<close> in \<^verbatim>\<open>cvWchan\<close>, \<open>cv_create\<close> returns \<^verbatim>\<open>NULL\<close> although nothing
  failed, and the name buffer stays allocated.
\<close>

theorem cv_create_reads_unwritten_field:
  "cv_create all_ok (Some Garbage) ''c''
     = (Some \<lparr>cv_name = Some (WaitChan []), cvWchan = Some Garbage, cvLock = False\<rparr>,
        [NameBuf ''c'', WaitChan []])
   \<and> cv_create (all_ok\<lparr>wchan_create_ok := False\<rparr>) (Some Garbage) ''c''
     = (Some \<lparr>cv_name = None, cvWchan = Some Garbage, cvLock = False\<rparr>, [NameBuf ''c''])
   \<and> cv_create all_ok None ''c'' = (None, [NameBuf ''c''])"
  by (simp add: cv_create_def all_ok_def Let_def kfree_def wchan_create_def spinlock_init_def)

text \<open>
  C7. Thread 1 holds the lock and calls \<open>cv_wait\<close>. It goes to sleep with the spinlock of
  the condition variable held, so \<open>cv_signal\<close> by thread 2 busy-waits on that spinlock.
  When thread 1 is woken and no other thread has acquired the lock in the meantime, the
  \<open>lock_acquire\<close> at the end of \<open>cv_wait\<close> fails the assertion \<^verbatim>\<open>lock->owner != curthread\<close>:
  \<open>cv_wait\<close> does not return.
\<close>

theorem cv_wait_panics_on_wake:
  "cv_wait_sleep (thread_ctx 1) 0
      \<lparr>cv_name = Some (NameBuf ''c''), cvWchan = Some (WaitChan []), cvLock = False\<rparr>
      \<lparr>lk_name = ''l'', lockWchan = [], lockProtect = False, flagLocked = 0, owner = Some 1\<rparr>
    = Sleeps (\<lparr>cv_name = Some (NameBuf ''c''), cvWchan = Some (WaitChan [1]), cvLock = True\<rparr>,
         \<lparr>lk_name = ''l'', lockWchan = [], lockProtect = False, flagLocked = 1, owner = Some 1\<rparr>)
   \<and> cv_signal (thread_ctx 2) 0
      \<lparr>cv_name = Some (NameBuf ''c''), cvWchan = Some (WaitChan [1]), cvLock = True\<rparr>
      \<lparr>lk_name = ''l'', lockWchan = [], lockProtect = False, flagLocked = 1, owner = Some 1\<rparr>
    = Spins
   \<and> cv_wait_wake (thread_ctx 1)
      \<lparr>cv_name = Some (NameBuf ''c''), cvWchan = Some (WaitChan []), cvLock = True\<rparr>
      \<lparr>lk_name = ''l'', lockWchan = [], lockProtect = False, flagLocked = 1, owner = Some 1\<rparr>
    = Panic AlreadyOwner"
  by (simp add: cv_wait_sleep_def cv_signal_def cv_wait_wake_def lock_release_def
      lock_acquire_def thread_ctx_def wchan_sleep_def wchan_wakeone_def Let_def)

section \<open>Properties of the semaphore\<close>

subsection \<open>Every schedule keeps the count balanced\<close>

lemma sem_inv_boot:
  "sem_create a name c = Some sm \<Longrightarrow> sem_inv (unat c) (boot sm td ii)"
  by (auto simp: sem_create_def sem_inv_def boot_def spinlock_init_def split: if_splits)

lemma sem_inv_holder:
  "sem_inv n s \<Longrightarrow> holds_guard (pcs s t) \<Longrightarrow>
     sem_lock (sem s) \<and> balance n (sem_count (sem s)) (p_done s) (v_done s) (pcs s t)
     \<and> (\<forall>u. holds_guard (pcs s u) \<longrightarrow> u = t)"
  by (auto simp: sem_inv_def)

text \<open>A step of a thread that does not hold the spinlock.\<close>

lemma sem_inv_step_outside:
  assumes "sem_inv n s" and "thread_step k t s = Some s'" and "\<not> holds_guard (pcs s t)"
  shows "sem_inv n s'"
  using assms
  by (cases "pcs s t")
    (auto simp: thread_step_def sem_inv_def goto_def halt_def
      split: if_splits list.splits semop.splits)

text \<open>A step of the thread that holds the spinlock.\<close>

lemma sem_inv_step_inside:
  assumes "sem_inv n s" and "thread_step k t s = Some s'" and "holds_guard (pcs s t)"
  shows "sem_inv n s'"
  using assms sem_inv_holder [OF assms(1), of t] unat_gt_0 [of "sem_count (sem s)"]
  by (cases "pcs s t")
    (auto simp: thread_step_def sem_inv_def goto_def halt_def wchan_sleep_def ctx_of_def
      wchan_wakeone_def unat_minus_one word_greater_zero_iff
      split: if_splits list.splits semop.splits option.splits prod.splits)

lemma sem_inv_step:
  "sem_inv n s \<Longrightarrow> thread_step k t s = Some s' \<Longrightarrow> sem_inv n s'"
  by (cases "holds_guard (pcs s t)") (blast intro: sem_inv_step_inside sem_inv_step_outside)+

lemma sem_inv_run:
  "sem_inv n s \<Longrightarrow> run sch s = Some s' \<Longrightarrow> sem_inv n s'"
proof (induction sch arbitrary: s)
  case Nil
  then show ?case by simp
next
  case (Cons a sch)
  obtain k t where a: "a = (k, t)" by (cases a)
  from Cons.prems(2) a obtain s1 where
    s1: "thread_step k t s = Some s1" and r: "run sch s1 = Some s'"
    by (auto split: option.splits)
  from sem_inv_step [OF Cons.prems(1) s1] Cons.IH r show ?case by blast
qed

text \<open>
  C9. A semaphore is created with count \<open>c\<close>, and threads call \<^verbatim>\<open>P\<close> and \<^verbatim>\<open>V\<close> on it in any
  number, in any order and under any schedule. In every state that is reached: the number
  of calls of \<^verbatim>\<open>P\<close> that have returned is at most \<open>c\<close> plus the number of calls of \<^verbatim>\<open>V\<close>
  that have returned; whenever the spinlock is free, the count is \<open>c\<close> plus the returned
  calls of \<^verbatim>\<open>V\<close> minus the returned calls of \<^verbatim>\<open>P\<close>, as natural numbers, so it has never
  wrapped below zero; a thread about to decrement finds the count positive; and the
  assertion of \<^verbatim>\<open>P\<close> has not failed.
\<close>

theorem sem_count_conservation:
  assumes "sem_create a name c = Some sm" and "run sch (boot sm td ii) = Some s"
  shows "p_done s \<le> unat c + v_done s
    \<and> (\<not> sem_lock (sem s) \<longrightarrow> unat (sem_count (sem s)) + p_done s = unat c + v_done s)
    \<and> (\<forall>t. pcs s t = P_dec \<longrightarrow> 0 < sem_count (sem s))
    \<and> halted s \<noteq> Some CountNotPositive"
proof -
  have inv: "sem_inv (unat c) s"
    using sem_inv_run [OF sem_inv_boot [OF assms(1)] assms(2)] .
  have dec: "0 < sem_count (sem s)" if "pcs s t = P_dec" for t
    using sem_inv_holder [OF inv, of t] that by (simp add: word_greater_zero_iff)
  from inv dec show ?thesis by (simp add: sem_inv_def)
qed

text \<open>
  A semaphore created with count 1; thread 0 calls \<^verbatim>\<open>P\<close> and then \<^verbatim>\<open>V\<close>, and runs both
  to the end.
\<close>

theorem sem_count_conservation_witness:
  "\<exists>s. run [(0, 0), (0, 0), (0, 0), (0, 0), (0, 0), (0, 0), (0, 0),
            (0, 0), (0, 0), (0, 0), (0, 0), (0, 0), (0, 0)]
         (boot \<lparr>sem_name = ''s'', sem_wchan = [], sem_lock = False, sem_count = 1\<rparr>
            ((\<lambda>_. [])(0 := [OpP, OpV])) (\<lambda>_. False)) = Some s
       \<and> p_done s = 1 \<and> v_done s = 1
       \<and> p_done s \<le> unat (1 :: 32 word) + v_done s
       \<and> (\<not> sem_lock (sem s) \<longrightarrow>
            unat (sem_count (sem s)) + p_done s = unat (1 :: 32 word) + v_done s)
       \<and> (\<forall>t. pcs s t = P_dec \<longrightarrow> 0 < sem_count (sem s))
       \<and> halted s \<noteq> Some CountNotPositive"
proof -
  define sm where "sm = \<lparr>sem_name = ''s'', sem_wchan = [], sem_lock = False, sem_count = 1\<rparr>"
  define sch :: "(nat \<times> thread) list" where
    "sch = [(0, 0), (0, 0), (0, 0), (0, 0), (0, 0), (0, 0), (0, 0),
            (0, 0), (0, 0), (0, 0), (0, 0), (0, 0), (0, 0)]"
  have c: "sem_create all_ok ''s'' 1 = Some sm"
    by (simp add: sem_create_def all_ok_def sm_def wchan_create_def spinlock_init_def)
  have "\<exists>s. run sch (boot sm ((\<lambda>_. [])(0 := [OpP, OpV])) (\<lambda>_. False)) = Some s
          \<and> p_done s = 1 \<and> v_done s = 1"
    by (simp add: sch_def sm_def boot_def thread_step_def goto_def halt_def ctx_of_def
        wchan_wakeone_def)
  then obtain s where r: "run sch (boot sm ((\<lambda>_. [])(0 := [OpP, OpV])) (\<lambda>_. False)) = Some s"
    and d: "p_done s = 1" "v_done s = 1"
    by blast
  from sem_count_conservation [OF c r] r d show ?thesis
    unfolding sch_def sm_def by blast
qed

subsection \<open>One \<^verbatim>\<open>P\<close> against one \<^verbatim>\<open>V\<close>\<close>

lemma scn_inv_scenario: "scn_inv scenario \<and> steps_left scenario = 16"
  by (simp add: scn_inv_def scenario_def boot_def a_dec_def b_inc_def b_woke_def
      steps_left_def)

lemma scn_only_two:
  "scn_inv s \<Longrightarrow> thread_step k t s = Some s' \<Longrightarrow> t = 0 \<or> t = 1"
  by (cases "1 < t") (auto simp: scn_inv_def thread_step_def)

lemma rank_a_count: "\<not> holds_guard l \<Longrightarrow> rank_a l c p = rank_a l c' p"
  by (cases l) simp_all

lemma scn_step_a:
  assumes "scn_inv s" and "thread_step k 0 s = Some s'"
  shows "scn_inv s' \<and> steps_left s' < steps_left s"
  using assms
  by (cases "pcs s 0")
    (clarsimp simp: scn_inv_def thread_step_def goto_def halt_def steps_left_def a_dec_def
       b_inc_def b_woke_def wchan_sleep_def ctx_of_def word_greater_zero_iff
       split: if_splits list.splits semop.splits; auto)+

lemma scn_step_b:
  assumes "scn_inv s" and "thread_step k 1 s = Some s'"
  shows "scn_inv s' \<and> steps_left s' < steps_left s"
  using assms
    rank_a_count [of "pcs s 0" "sem_count (sem s)" "p_done s" "sem_count (sem s) + 1"]
  by (cases "pcs s 1")
    (clarsimp simp: scn_inv_def thread_step_def goto_def halt_def steps_left_def a_dec_def
       b_inc_def b_woke_def wchan_wakeone_def word_greater_zero_iff
       split: if_splits list.splits semop.splits)+

lemma scn_step:
  assumes "scn_inv s" and "thread_step k t s = Some s'"
  shows "scn_inv s' \<and> steps_left s' < steps_left s"
  using scn_only_two [OF assms] assms scn_step_a scn_step_b by blast

lemma scn_run:
  "scn_inv s \<Longrightarrow> run sch s = Some s' \<Longrightarrow>
     scn_inv s' \<and> length sch + steps_left s' \<le> steps_left s"
proof (induction sch arbitrary: s)
  case Nil
  then show ?case by simp
next
  case (Cons a sch)
  obtain k t where a: "a = (k, t)" by (cases a)
  from Cons.prems(2) a obtain s1 where
    s1: "thread_step k t s = Some s1" and r: "run sch s1 = Some s'"
    by (auto split: option.splits)
  from scn_step [OF Cons.prems(1) s1] have "scn_inv s1" and "steps_left s1 < steps_left s"
    by simp_all
  with Cons.IH [OF _ r] show ?case by simp
qed

lemma scn_progress:
  assumes "scn_inv s"
  shows "p_done s = 1 \<and> v_done s = 1
    \<or> thread_step 0 0 s \<noteq> None \<or> thread_step 0 1 s \<noteq> None"
  using assms
  by (cases "pcs s 0"; cases "pcs s 1";
      auto simp: scn_inv_def thread_step_def b_woke_def a_dec_def b_inc_def ctx_of_def
        wchan_sleep_def wchan_wakeone_def split: list.splits semop.splits)

text \<open>
  C8. The semaphore is created with count 0. Thread 0 calls \<^verbatim>\<open>P\<close> and runs until it is
  asleep on the wait channel, with the count still 0; it then has no step. Thread 1 calls
  \<^verbatim>\<open>V\<close> and runs to the end: the count is 1 and thread 0 is woken. Thread 0 runs on and
  returns from \<^verbatim>\<open>P\<close>, and the count is 0 again.

  The same holds however the two calls are interleaved: no assertion fails; thread 0 gets
  past the loop of \<^verbatim>\<open>P\<close> only after \<^verbatim>\<open>V\<close> has returned; when \<^verbatim>\<open>P\<close> has returned the count
  is 0; as long as one of the two calls has not returned some thread has a step; and no
  schedule has more than 16 steps, so every run ends with both calls returned.
\<close>

theorem semaphore_scenario:
  "sem_create all_ok ''s'' 0 = Some (sem scenario)
   \<and> (\<exists>s1 s2 s3.
         run [(0, 0), (0, 0), (0, 0), (0, 0), (0, 0)] scenario = Some s1
       \<and> pcs s1 0 = P_asleep \<and> sem_wchan (sem s1) = [0] \<and> sem_count (sem s1) = 0
       \<and> (\<forall>k. thread_step k 0 s1 = None)
       \<and> run [(0, 1), (0, 1), (0, 1), (0, 1), (0, 1), (0, 1)] s1 = Some s2
       \<and> pcs s2 1 = Idle \<and> v_done s2 = 1 \<and> sem_count (sem s2) = 1 \<and> pcs s2 0 = P_woken
       \<and> run [(0, 0), (0, 0), (0, 0), (0, 0), (0, 0)] s2 = Some s3
       \<and> pcs s3 0 = Idle \<and> p_done s3 = 1 \<and> sem_count (sem s3) = 0 \<and> halted s3 = None)
   \<and> (\<forall>sch s. run sch scenario = Some s \<longrightarrow>
         halted s = None
       \<and> (p_done s = 1 \<or> pcs s 0 = P_assert \<or> pcs s 0 = P_dec \<or> pcs s 0 = P_unlock
            \<longrightarrow> v_done s = 1)
       \<and> (p_done s = 1 \<longrightarrow> sem_count (sem s) = 0)
       \<and> (p_done s = 1 \<and> v_done s = 1 \<or> (\<exists>t. thread_step 0 t s \<noteq> None))
       \<and> length sch \<le> 16)"
proof (intro conjI allI impI)
  show "sem_create all_ok ''s'' 0 = Some (sem scenario)"
    by (simp add: sem_create_def all_ok_def scenario_def boot_def wchan_create_def
        spinlock_init_def)
next
  show "\<exists>s1 s2 s3.
         run [(0, 0), (0, 0), (0, 0), (0, 0), (0, 0)] scenario = Some s1
       \<and> pcs s1 0 = P_asleep \<and> sem_wchan (sem s1) = [0] \<and> sem_count (sem s1) = 0
       \<and> (\<forall>k. thread_step k 0 s1 = None)
       \<and> run [(0, 1), (0, 1), (0, 1), (0, 1), (0, 1), (0, 1)] s1 = Some s2
       \<and> pcs s2 1 = Idle \<and> v_done s2 = 1 \<and> sem_count (sem s2) = 1 \<and> pcs s2 0 = P_woken
       \<and> run [(0, 0), (0, 0), (0, 0), (0, 0), (0, 0)] s2 = Some s3
       \<and> pcs s3 0 = Idle \<and> p_done s3 = 1 \<and> sem_count (sem s3) = 0 \<and> halted s3 = None"
    by (simp add: scenario_def boot_def thread_step_def goto_def halt_def ctx_of_def
        wchan_sleep_def wchan_wakeone_def)
next
  fix sch s
  assume r: "run sch scenario = Some s"
  from scn_inv_scenario scn_run [OF _ r] have inv: "scn_inv s" and len: "length sch \<le> 16"
    by simp_all
  show "halted s = None" using inv by (simp add: scn_inv_def)
  show "length sch \<le> 16" by (rule len)
  show "p_done s = 1 \<and> v_done s = 1 \<or> (\<exists>t. thread_step 0 t s \<noteq> None)"
    using scn_progress [OF inv] by blast
  show "v_done s = 1"
    if "p_done s = 1 \<or> pcs s 0 = P_assert \<or> pcs s 0 = P_dec \<or> pcs s 0 = P_unlock"
    using inv that by (auto simp: scn_inv_def a_dec_def)
  show "sem_count (sem s) = 0" if "p_done s = 1"
    using inv that by (simp add: scn_inv_def a_dec_def)
qed

text \<open>
  The schedule in which thread 1 runs \<^verbatim>\<open>V\<close> to the end before thread 0 starts \<^verbatim>\<open>P\<close>:
  thread 0 does not sleep, and the run has 13 steps.
\<close>

theorem semaphore_scenario_witness:
  "\<exists>s. run [(0, 1), (0, 1), (0, 1), (0, 1), (0, 1), (0, 1),
            (0, 0), (0, 0), (0, 0), (0, 0), (0, 0), (0, 0), (0, 0)] scenario = Some s
       \<and> p_done s = 1 \<and> halted s = None \<and> v_done s = 1 \<and> sem_count (sem s) = 0
       \<and> length [(0, 1), (0, 1), (0, 1), (0, 1), (0, 1), (0, 1),
                  (0 :: nat, 0 :: thread), (0, 0), (0, 0), (0, 0), (0, 0), (0, 0), (0, 0)]
           \<le> 16"
proof -
  define sch :: "(nat \<times> thread) list" where
    "sch = [(0, 1), (0, 1), (0, 1), (0, 1), (0, 1), (0, 1),
            (0, 0), (0, 0), (0, 0), (0, 0), (0, 0), (0, 0), (0, 0)]"
  have "\<exists>s. run sch scenario = Some s \<and> p_done s = 1"
    by (simp add: sch_def scenario_def boot_def thread_step_def goto_def halt_def ctx_of_def
        wchan_wakeone_def)
  then obtain s where r: "run sch scenario = Some s" and d: "p_done s = 1"
    by blast
  from semaphore_scenario [THEN conjunct2, THEN conjunct2, rule_format, OF r] r d
  show ?thesis
    unfolding sch_def by blast
qed

end
